theory Spec2Isabelle
  imports Main
begin

section \<open>The control state machine of \<^verbatim>\<open>sandman_main/controls.py\<close>\<close>

text \<open>
  The class \<^verbatim>\<open>Control\<close> is a record of its private fields, and each method is a
  function from the control (and the notification list it is given) to the updated
  control (and list). The two ways a call of \<^verbatim>\<open>process\<close> can raise are values of
  \<open>error\<close>. The calls of the logger are left out: they read fields and write none, and
  \<^verbatim>\<open>State.label\<close>, the only thing they evaluate, is total on the four members.
\<close>

subsection \<open>Enumerations\<close>

text \<open>\<^verbatim>\<open>Control.Type\<close> is a \<^verbatim>\<open>StrEnum\<close>: a member is the string that is its value.\<close>

datatype Type = BACK | LEGS | ELEVATION

fun Type_value :: "Type \<Rightarrow> string" where
  "Type_value BACK = ''back''"
| "Type_value LEGS = ''legs''"
| "Type_value ELEVATION = ''elevation''"

datatype State = IDLE | MOVE_UP | MOVE_DOWN | COOL_DOWN

fun label :: "State \<Rightarrow> string" where
  "label IDLE = ''idle''"
| "label MOVE_UP = ''move up''"
| "label MOVE_DOWN = ''move down''"
| "label COOL_DOWN = ''cool down''"

subsection \<open>The timer and the control\<close>

text \<open>
  The module \<^verbatim>\<open>timing\<close> is not part of the source at hand, so the timer is a
  parameter: a value of \<open>'t Timer\<close> is what the timer object answers at one moment,
  for an arbitrary type \<open>'t\<close> of timestamps. \<open>get_current_time\<close> is the answer of
  \<^verbatim>\<open>get_current_time()\<close> and \<open>get_time_since_ms\<close> that of
  \<^verbatim>\<open>get_time_since_ms(past)\<close>.
\<close>

record 't Timer =
  get_current_time :: 't
  get_time_since_ms :: "'t \<Rightarrow> int"

text \<open>
  \<^verbatim>\<open>__init__\<close> does not assign \<^verbatim>\<open>__state_start_time\<close>: the attribute does not
  exist until \<^verbatim>\<open>__set_state\<close> runs for the first time, hence the \<open>option\<close>.
\<close>

record 't Control =
  state :: State
  desired_state :: State
  name :: string
  timer :: "'t Timer"
  moving_duration_ms :: int
  cool_down_duration_ms :: int
  state_start_time :: "'t option"

datatype error =
  AttributeError  \<comment> \<open>\<^verbatim>\<open>__state_start_time\<close> is read before it was assigned\<close>
| AssertionError  \<comment> \<open>\<^verbatim>\<open>typing.assert_never\<close> in the last case of the dispatch\<close>

subsection \<open>The methods\<close>

definition Control_init :: "string \<Rightarrow> 't Timer \<Rightarrow> int \<Rightarrow> int \<Rightarrow> 't Control" where
  "Control_init nm tm moving cool =
     \<lparr>state = IDLE, desired_state = IDLE, name = nm, timer = tm,
      moving_duration_ms = moving, cool_down_duration_ms = cool,
      state_start_time = None\<rparr>"

definition set_desired_state :: "State \<Rightarrow> 't Control \<Rightarrow> 't Control" where
  "set_desired_state s c =
     (if s = COOL_DOWN then c else c\<lparr>desired_state := s\<rparr>)"

text \<open>
  \<^verbatim>\<open>__set_state\<close>: the notification is appended first, then the state and the start
  time are assigned. Its \<^verbatim>\<open>match\<close> has no case for \<^verbatim>\<open>IDLE\<close>.
\<close>

definition set_state ::
  "'t Control \<Rightarrow> string list \<Rightarrow> State \<Rightarrow> 't Control \<times> string list" where
  "set_state c notifications s =
     (let notifications' =
        (case s of
           MOVE_UP \<Rightarrow> notifications @ [''Raising the '' @ name c @ ''.'']
         | MOVE_DOWN \<Rightarrow> notifications @ [''Lowering the '' @ name c @ ''.'']
         | COOL_DOWN \<Rightarrow> notifications @ [name c @ '' stopped.'']
         | IDLE \<Rightarrow> notifications)
      in (c\<lparr>state := s, state_start_time := Some (get_current_time (timer c))\<rparr>,
          notifications'))"

definition process_idle_state ::
  "'t Control \<Rightarrow> string list \<Rightarrow> 't Control \<times> string list" where
  "process_idle_state c notifications =
     (if desired_state c = IDLE then (c, notifications)
      else if desired_state c \<noteq> MOVE_UP \<and> desired_state c \<noteq> MOVE_DOWN
        then (c\<lparr>desired_state := IDLE\<rparr>, notifications)
      else set_state c notifications (desired_state c))"

text \<open>
  \<^verbatim>\<open>__process_moving_states\<close>: the first part returns early for three of the four
  desired states (\<open>Some\<close>) and falls through otherwise (\<open>None\<close>); the second part
  reads the start time, which raises when the attribute was never assigned.
\<close>

definition process_moving_states ::
  "'t Control \<Rightarrow> string list \<Rightarrow> error + 't Control \<times> string list" where
  "process_moving_states c notifications =
     (case (if desired_state c \<noteq> state c then
              (case desired_state c of
                 MOVE_UP \<Rightarrow> Some (set_state c notifications (desired_state c))
               | MOVE_DOWN \<Rightarrow> Some (set_state c notifications (desired_state c))
               | IDLE \<Rightarrow> Some (set_state c notifications COOL_DOWN)
               | COOL_DOWN \<Rightarrow> None)
            else None) of
        Some r \<Rightarrow> Inr r
      | None \<Rightarrow>
          (case state_start_time c of
             None \<Rightarrow> Inl AttributeError
           | Some start \<Rightarrow>
               (let elapsed_time_ms = get_time_since_ms (timer c) start
                in if elapsed_time_ms < moving_duration_ms c then Inr (c, notifications)
                   else Inr (set_state (c\<lparr>desired_state := IDLE\<rparr>) notifications
                               COOL_DOWN))))"

definition process_cool_down_state ::
  "'t Control \<Rightarrow> string list \<Rightarrow> error + 't Control \<times> string list" where
  "process_cool_down_state c notifications =
     (case state_start_time c of
        None \<Rightarrow> Inl AttributeError
      | Some start \<Rightarrow>
          (let elapsed_time_ms = get_time_since_ms (timer c) start
           in if elapsed_time_ms < cool_down_duration_ms c then Inr (c, notifications)
              else Inr (set_state (c\<lparr>desired_state := IDLE\<rparr>) notifications IDLE)))"

definition process ::
  "'t Control \<Rightarrow> string list \<Rightarrow> error + 't Control \<times> string list" where
  "process c notifications =
     (if state c = IDLE then Inr (process_idle_state c notifications)
      else if state c = MOVE_UP \<or> state c = MOVE_DOWN
        then process_moving_states c notifications
      else if state c = COOL_DOWN then process_cool_down_state c notifications
      else Inl AssertionError)"

subsection \<open>Sequences of calls\<close>

text \<open>
  What a caller can do with a control: call \<^verbatim>\<open>set_desired_state\<close>, call
  \<^verbatim>\<open>process\<close> with a list of its choice, and let time pass, after which the timer
  object the control refers to answers differently. A run stops at the first call that
  raises.
\<close>

datatype 't call =
  SetDesiredState State
| Process "string list"
| TimerAdvance "'t Timer"

fun call_step :: "'t Control \<Rightarrow> 't call \<Rightarrow> error + 't Control" where
  "call_step c (SetDesiredState s) = Inr (set_desired_state s c)"
| "call_step c (Process notifications) =
     (case process c notifications of
        Inl e \<Rightarrow> Inl e
      | Inr (c', notifications') \<Rightarrow> Inr c')"
| "call_step c (TimerAdvance tm) = Inr (c\<lparr>timer := tm\<rparr>)"

fun run :: "'t Control \<Rightarrow> 't call list \<Rightarrow> error + 't Control" where
  "run c [] = Inr c"
| "run c (x # xs) =
     (case call_step c x of
        Inl e \<Rightarrow> Inl e
      | Inr c' \<Rightarrow> run c' xs)"

text \<open>
  The time at which the current state was entered, observed from outside: the timer's
  current time at the last call of the run that changed the \<open>state\<close> field, starting
  from \<open>entered\<close>.
\<close>

fun entry_time :: "'t option \<Rightarrow> 't Control \<Rightarrow> 't call list \<Rightarrow> 't option" where
  "entry_time entered c [] = entered"
| "entry_time entered c (x # xs) =
     (case call_step c x of
        Inl e \<Rightarrow> entered
      | Inr c' \<Rightarrow>
          entry_time
            (if state c' \<noteq> state c then Some (get_current_time (timer c)) else entered)
            c' xs)"

text \<open>
  Modelled from the spec: the \<^verbatim>\<open>Timer\<close> of the module \<^verbatim>\<open>timing\<close>, which is
  missing from the sources, as its interface is described: a monotonic current time
  and the milliseconds elapsed since a past timestamp. With timestamps in
  milliseconds, at time \<open>now\<close> it answers \<open>now\<close> and \<open>now - past\<close>. Only the
  concrete runs use it; the theorems hold for every timer.
\<close>

definition clock_at :: "int \<Rightarrow> int Timer" where
  "clock_at now = \<lparr>get_current_time = now, get_time_since_ms = (\<lambda>past. now - past)\<rparr>"

text \<open>
  The control of the specification's scenario: the legs, moving for at most 5000 ms
  and cooling down for 2000 ms, constructed at time 0.
\<close>

definition legs :: "int Control" where
  "legs = Control_init (Type_value LEGS) (clock_at 0) 5000 2000"

text \<open>
  The start time is assigned in every state but \<open>IDLE\<close>: the invariant that keeps
  the reads of \<^verbatim>\<open>__state_start_time\<close> from raising.
\<close>

definition start_time_set :: "'t Control \<Rightarrow> bool" where
  "start_time_set c \<longleftrightarrow> (state c \<noteq> IDLE \<longrightarrow> state_start_time c \<noteq> None)"

section \<open>Properties\<close>

subsection \<open>Auxiliary facts\<close>

lemmas process_defs = process_def process_idle_state_def process_moving_states_def
  process_cool_down_state_def set_state_def

lemma clock_at_sel [simp]:
  "get_current_time (clock_at now) = now"
  "get_time_since_ms (clock_at now) past = now - past"
  by (simp_all add: clock_at_def)

lemma legs_sel [simp]:
  "state legs = IDLE" "desired_state legs = IDLE" "name legs = ''legs''"
  "timer legs = clock_at 0" "moving_duration_ms legs = 5000"
  "cool_down_duration_ms legs = 2000" "state_start_time legs = None"
  by (simp_all add: legs_def Control_init_def)

lemma start_time_set_init: "start_time_set (Control_init nm tm moving cool)"
  by (simp add: start_time_set_def Control_init_def)

lemma process_stamp:
  assumes "process c ns = Inr (c', ns')"
  shows "state_start_time c' =
    (if state c' \<noteq> state c then Some (get_current_time (timer c))
     else state_start_time c)"
  using assms
  by (cases "state c"; cases "desired_state c")
    (auto simp: process_defs split: option.splits if_splits)

lemma process_total:
  assumes "start_time_set c"
  shows "\<exists>r. process c ns = Inr r"
  using assms
  by (cases "state c"; cases "desired_state c")
    (auto simp: process_defs start_time_set_def)

lemma process_start_time_set:
  assumes "start_time_set c" and "process c ns = Inr (c', ns')"
  shows "start_time_set c'"
  using assms process_stamp [OF assms(2)]
  by (auto simp: start_time_set_def split: if_splits)

lemma call_step_total:
  assumes "start_time_set c"
  shows "\<exists>c'. call_step c x = Inr c' \<and> start_time_set c'"
proof (cases x)
  case (SetDesiredState s)
  with assms show ?thesis
    by (simp add: set_desired_state_def start_time_set_def)
next
  case (Process ns)
  obtain c' ns' where r: "process c ns = Inr (c', ns')"
    using process_total [OF assms, of ns] by force
  with assms Process show ?thesis
    by (simp add: process_start_time_set [OF assms r])
next
  case (TimerAdvance tm)
  with assms show ?thesis by (simp add: start_time_set_def)
qed

lemma call_step_stamp:
  assumes "call_step c x = Inr c'"
  shows "state_start_time c' =
    (if state c' \<noteq> state c then Some (get_current_time (timer c))
     else state_start_time c)"
proof (cases x)
  case (SetDesiredState s)
  with assms show ?thesis
    by (auto simp: set_desired_state_def split: if_splits)
next
  case (Process ns)
  with assms obtain ns' where "process c ns = Inr (c', ns')"
    by (auto split: sum.splits)
  then show ?thesis by (rule process_stamp)
next
  case (TimerAdvance tm)
  with assms show ?thesis by auto
qed

lemma run_total:
  assumes "start_time_set c"
  shows "\<exists>c'. run c xs = Inr c' \<and> start_time_set c'"
  using assms
proof (induction xs arbitrary: c)
  case Nil
  then show ?case by simp
next
  case (Cons x xs)
  obtain c1 where s: "call_step c x = Inr c1" "start_time_set c1"
    using call_step_total [OF Cons.prems] by blast
  from Cons.IH [OF s(2)] s(1) show ?case by simp
qed

lemma run_entry_time:
  assumes "run c xs = Inr c'"
  shows "state_start_time c' = entry_time (state_start_time c) c xs"
  using assms
proof (induction xs arbitrary: c)
  case Nil
  then show ?case by simp
next
  case (Cons x xs)
  from Cons.prems obtain c1
    where s: "call_step c x = Inr c1" and r: "run c1 xs = Inr c'"
    by (auto split: sum.splits)
  from Cons.IH [OF r] call_step_stamp [OF s] s show ?case by simp
qed

text \<open>The list given to \<^verbatim>\<open>process\<close> only ever has something appended at its end.\<close>

lemma process_sink:
  "process c ns =
     (case process c [] of
        Inl e \<Rightarrow> Inl e
      | Inr (c', extra) \<Rightarrow> Inr (c', ns @ extra))"
  by (cases "state c"; cases "desired_state c")
    (simp_all add: process_defs split: option.splits)

lemma process_at_most_one:
  assumes "process c [] = Inr (c', extra)"
  shows "length extra \<le> 1"
  using assms
  by (cases "state c"; cases "desired_state c")
    (auto simp: process_defs split: option.splits if_splits)

lemma process_appends:
  assumes "start_time_set c"
  shows "\<exists>c' extra. length extra \<le> 1 \<and> (\<forall>ns. process c ns = Inr (c', ns @ extra))"
proof -
  obtain c' extra where r: "process c [] = Inr (c', extra)"
    using process_total [OF assms, of "[]"] by force
  have "process c ns = Inr (c', ns @ extra)" for ns
    using process_sink [of c ns] r by simp
  with process_at_most_one [OF r] show ?thesis by blast
qed

text \<open>Calls of \<^verbatim>\<open>set_desired_state\<close> change the desired state and nothing else.\<close>

lemma fold_set_desired_state:
  "fold set_desired_state ds c =
     c\<lparr>desired_state := desired_state (fold set_desired_state ds c)\<rparr>"
proof (induction ds arbitrary: c)
  case Nil
  show ?case by simp
next
  case (Cons s ds)
  let ?c = "set_desired_state s c"
  have "fold set_desired_state ds ?c =
      ?c\<lparr>desired_state := desired_state (fold set_desired_state ds ?c)\<rparr>"
    by (rule Cons.IH)
  also have "\<dots> = c\<lparr>desired_state := desired_state (fold set_desired_state ds ?c)\<rparr>"
    by (simp add: set_desired_state_def)
  finally show ?case by simp
qed

text \<open>
  While the timer answers less than the cool-down duration, no call takes the control
  out of \<open>COOL_DOWN\<close>.
\<close>

lemma cool_down_run:
  assumes "state c = COOL_DOWN" and "state_start_time c = Some start"
    and "get_time_since_ms (timer c) start < cool"
    and "cool_down_duration_ms c = cool"
    and "\<forall>tm. TimerAdvance tm \<in> set xs \<longrightarrow> get_time_since_ms tm start < cool"
  shows "\<exists>c'. run c xs = Inr c' \<and> state c' = COOL_DOWN \<and>
    state_start_time c' = Some start"
  using assms
proof (induction xs arbitrary: c)
  case Nil
  then show ?case by simp
next
  case (Cons x xs)
  have "\<exists>c1. call_step c x = Inr c1 \<and> state c1 = COOL_DOWN \<and>
      state_start_time c1 = Some start \<and> get_time_since_ms (timer c1) start < cool \<and>
      cool_down_duration_ms c1 = cool"
  proof (cases x)
    case (SetDesiredState s)
    with Cons.prems show ?thesis by (simp add: set_desired_state_def)
  next
    case (Process ns)
    with Cons.prems show ?thesis by (simp add: process_defs)
  next
    case (TimerAdvance tm)
    with Cons.prems show ?thesis by simp
  qed
  then obtain c1 where s: "call_step c x = Inr c1" and i: "state c1 = COOL_DOWN"
    "state_start_time c1 = Some start" "get_time_since_ms (timer c1) start < cool"
    "cool_down_duration_ms c1 = cool"
    by blast
  from Cons.prems(5) have "\<forall>tm. TimerAdvance tm \<in> set xs \<longrightarrow>
      get_time_since_ms tm start < cool"
    by simp
  from Cons.IH [OF i this] s show ?case by simp
qed

subsection \<open>The specification's scenario\<close>

lemma scenario_raise:
  "process (set_desired_state MOVE_UP legs) [] =
     Inr (legs\<lparr>state := MOVE_UP, desired_state := MOVE_UP, state_start_time := Some 0\<rparr>,
          [''Raising the legs.''])"
  by (simp add: process_defs set_desired_state_def)

lemma scenario_stop:
  "process (legs\<lparr>state := MOVE_UP, desired_state := MOVE_UP, state_start_time := Some 0,
                timer := clock_at 5001\<rparr>) [] =
     Inr (legs\<lparr>state := COOL_DOWN, desired_state := IDLE, state_start_time := Some 5001,
               timer := clock_at 5001\<rparr>,
          [''legs stopped.''])"
  by (simp add: process_defs)

lemma scenario_idle:
  "process (legs\<lparr>state := COOL_DOWN, desired_state := IDLE,
                state_start_time := Some 5001, timer := clock_at 7002\<rparr>) [] =
     Inr (legs\<lparr>state := IDLE, desired_state := IDLE, state_start_time := Some 7002,
               timer := clock_at 7002\<rparr>,
          [])"
  by (simp add: process_defs)

subsection \<open>The claims\<close>

text \<open>
  C1. In \<open>MOVE_UP\<close> or \<open>MOVE_DOWN\<close> with the desired state equal to the state,
  \<open>process\<close> changes nothing and appends nothing while the time since the state was
  entered is below \<open>moving_duration_ms\<close>; from then on it goes to \<open>COOL_DOWN\<close>,
  appends exactly the notification "<name> stopped." and sets the desired state to
  \<open>IDLE\<close>. The time since entry is what the timer answers for the start time, which is
  assigned in every moving state that can be reached.
\<close>

theorem moving_same_desired:
  assumes "state c = MOVE_UP \<or> state c = MOVE_DOWN"
    and "desired_state c = state c"
    and "state_start_time c = Some start"
  shows "process c ns =
    (if get_time_since_ms (timer c) start < moving_duration_ms c then Inr (c, ns)
     else Inr (c\<lparr>desired_state := IDLE, state := COOL_DOWN,
                 state_start_time := Some (get_current_time (timer c))\<rparr>,
               ns @ [name c @ '' stopped.'']))"
  using assms by (auto simp: process_defs)

theorem moving_same_desired_witness:
  "(state (legs\<lparr>state := MOVE_DOWN, desired_state := MOVE_DOWN,
       state_start_time := Some 0, timer := clock_at 5000\<rparr>) = MOVE_UP \<or>
    state (legs\<lparr>state := MOVE_DOWN, desired_state := MOVE_DOWN,
       state_start_time := Some 0, timer := clock_at 5000\<rparr>) = MOVE_DOWN) \<and>
   process (legs\<lparr>state := MOVE_DOWN, desired_state := MOVE_DOWN,
       state_start_time := Some 0, timer := clock_at 5000\<rparr>) [''a''] =
     Inr (legs\<lparr>state := COOL_DOWN, desired_state := IDLE,
            state_start_time := Some 5000, timer := clock_at 5000\<rparr>,
          [''a'', ''legs stopped.''])"
  using moving_same_desired [of "legs\<lparr>state := MOVE_DOWN, desired_state := MOVE_DOWN,
      state_start_time := Some 0, timer := clock_at 5000\<rparr>" 0 "[''a'']"]
  by simp

text \<open>
  C2. In \<open>COOL_DOWN\<close>, after any sequence of calls of \<open>set_desired_state\<close>,
  \<open>process\<close> leaves the control as it is while the time since \<open>COOL_DOWN\<close> was
  entered is below \<open>cool_down_duration_ms\<close>; from then on it goes to \<open>IDLE\<close>,
  appends nothing and sets the desired state to \<open>IDLE\<close>, whatever was requested.
  And any sequence of calls during which the timer answers less than the cool-down
  duration ends in \<open>COOL_DOWN\<close> with the start time untouched.
\<close>

theorem cool_down_not_skippable:
  assumes "state c = COOL_DOWN"
    and "state_start_time c = Some start"
  shows "process (fold set_desired_state ds c) ns =
      (if get_time_since_ms (timer c) start < cool_down_duration_ms c
       then Inr (fold set_desired_state ds c, ns)
       else Inr (c\<lparr>desired_state := IDLE, state := IDLE,
                   state_start_time := Some (get_current_time (timer c))\<rparr>, ns)) \<and>
    state (fold set_desired_state ds c) = COOL_DOWN \<and>
    (get_time_since_ms (timer c) start < cool_down_duration_ms c \<longrightarrow>
     (\<forall>tm. TimerAdvance tm \<in> set xs \<longrightarrow>
        get_time_since_ms tm start < cool_down_duration_ms c) \<longrightarrow>
     (\<exists>c'. run c xs = Inr c' \<and> state c' = COOL_DOWN \<and>
        state_start_time c' = Some start))"
proof -
  obtain d where "fold set_desired_state ds c = c\<lparr>desired_state := d\<rparr>"
    using fold_set_desired_state [of ds c] by blast
  with assms have "process (fold set_desired_state ds c) ns =
      (if get_time_since_ms (timer c) start < cool_down_duration_ms c
       then Inr (fold set_desired_state ds c, ns)
       else Inr (c\<lparr>desired_state := IDLE, state := IDLE,
                   state_start_time := Some (get_current_time (timer c))\<rparr>, ns)) \<and>
    state (fold set_desired_state ds c) = COOL_DOWN"
    by (simp add: process_defs)
  with cool_down_run [OF assms _ refl, of xs] show ?thesis by blast
qed

theorem cool_down_not_skippable_witness:
  "state (legs\<lparr>state := COOL_DOWN, state_start_time := Some 5001,
       timer := clock_at 7000\<rparr>) = COOL_DOWN \<and>
   process (fold set_desired_state [MOVE_UP, COOL_DOWN, MOVE_DOWN]
       (legs\<lparr>state := COOL_DOWN, state_start_time := Some 5001,
          timer := clock_at 7000\<rparr>)) [] =
     Inr (legs\<lparr>state := COOL_DOWN, desired_state := MOVE_DOWN,
            state_start_time := Some 5001, timer := clock_at 7000\<rparr>, []) \<and>
   get_time_since_ms (clock_at 7000) 5001 < 2000 \<and>
   (\<exists>c'. run (legs\<lparr>state := COOL_DOWN, state_start_time := Some 5001,
       timer := clock_at 7000\<rparr>)
      [SetDesiredState MOVE_UP, Process [], TimerAdvance (clock_at 7000), Process []] =
        Inr c' \<and> state c' = COOL_DOWN \<and> state_start_time c' = Some 5001)"
  using cool_down_not_skippable [of "legs\<lparr>state := COOL_DOWN,
      state_start_time := Some 5001, timer := clock_at 7000\<rparr>" 5001
      "[MOVE_UP, COOL_DOWN, MOVE_DOWN]" "[]"
      "[SetDesiredState MOVE_UP, Process [], TimerAdvance (clock_at 7000), Process []]"]
  by (simp add: set_desired_state_def)

text \<open>
  C3. In a moving state with a desired state that differs from the state: when the
  desired state is the other moving state, \<open>process\<close> goes to it at once, without
  \<open>COOL_DOWN\<close>, and appends "Raising the <name>." or "Lowering the <name>."; when
  it is \<open>IDLE\<close>, \<open>process\<close> goes to \<open>COOL_DOWN\<close> and appends "<name> stopped.".
  Neither the start time nor the timer's elapsed time is consulted.
\<close>

theorem moving_override:
  assumes "state c = MOVE_UP \<or> state c = MOVE_DOWN"
    and "desired_state c \<noteq> state c"
  shows "(desired_state c = MOVE_UP \<longrightarrow>
            process c ns =
              Inr (c\<lparr>state := MOVE_UP,
                     state_start_time := Some (get_current_time (timer c))\<rparr>,
                   ns @ [''Raising the '' @ name c @ ''.''])) \<and>
         (desired_state c = MOVE_DOWN \<longrightarrow>
            process c ns =
              Inr (c\<lparr>state := MOVE_DOWN,
                     state_start_time := Some (get_current_time (timer c))\<rparr>,
                   ns @ [''Lowering the '' @ name c @ ''.''])) \<and>
         (desired_state c = IDLE \<longrightarrow>
            process c ns =
              Inr (c\<lparr>state := COOL_DOWN,
                     state_start_time := Some (get_current_time (timer c))\<rparr>,
                   ns @ [name c @ '' stopped.'']))"
  using assms by (auto simp: process_defs)

theorem moving_override_witness:
  "process (legs\<lparr>state := MOVE_UP, desired_state := MOVE_DOWN,
       state_start_time := Some 0\<rparr>) [] =
     Inr (legs\<lparr>state := MOVE_DOWN, desired_state := MOVE_DOWN,
            state_start_time := Some 0\<rparr>, [''Lowering the legs.'']) \<and>
   process (legs\<lparr>state := MOVE_DOWN, desired_state := MOVE_UP,
       state_start_time := Some 0\<rparr>) [] =
     Inr (legs\<lparr>state := MOVE_UP, desired_state := MOVE_UP,
            state_start_time := Some 0\<rparr>, [''Raising the legs.'']) \<and>
   process (legs\<lparr>state := MOVE_UP, desired_state := IDLE,
       state_start_time := Some 0\<rparr>) [] =
     Inr (legs\<lparr>state := COOL_DOWN, desired_state := IDLE,
            state_start_time := Some 0\<rparr>, [''legs stopped.''])"
  using
    moving_override [of "legs\<lparr>state := MOVE_UP, desired_state := MOVE_DOWN,
      state_start_time := Some 0\<rparr>" "[]"]
    moving_override [of "legs\<lparr>state := MOVE_DOWN, desired_state := MOVE_UP,
      state_start_time := Some 0\<rparr>" "[]"]
    moving_override [of "legs\<lparr>state := MOVE_UP, desired_state := IDLE,
      state_start_time := Some 0\<rparr>" "[]"]
  by simp

text \<open>
  C4. \<open>set_desired_state COOL_DOWN\<close> leaves the whole control as it is, in every
  state; for every other value \<open>set_desired_state\<close> sets the desired state to it and
  changes no other field, so the state and its start time stay.
\<close>

theorem set_desired_state_effect:
  "set_desired_state COOL_DOWN c = c \<and>
   (s \<noteq> COOL_DOWN \<longrightarrow> set_desired_state s c = c\<lparr>desired_state := s\<rparr>) \<and>
   state (set_desired_state s c) = state c \<and>
   state_start_time (set_desired_state s c) = state_start_time c"
  by (simp add: set_desired_state_def)

theorem set_desired_state_effect_witness:
  "MOVE_UP \<noteq> COOL_DOWN \<and>
   set_desired_state MOVE_UP legs = legs\<lparr>desired_state := MOVE_UP\<rparr> \<and>
   set_desired_state COOL_DOWN (legs\<lparr>desired_state := MOVE_UP\<rparr>) =
     legs\<lparr>desired_state := MOVE_UP\<rparr>"
  using set_desired_state_effect [of legs MOVE_UP]
    set_desired_state_effect [of "legs\<lparr>desired_state := MOVE_UP\<rparr>" COOL_DOWN]
  by simp

text \<open>
  C5. In \<open>IDLE\<close> with the desired state \<open>MOVE_UP\<close> (\<open>MOVE_DOWN\<close>), one call of
  \<open>process\<close> goes to that state and appends exactly one notification,
  "Raising the <name>." ("Lowering the <name>."); with the desired state \<open>IDLE\<close> it
  changes nothing and appends nothing.
\<close>

theorem idle_process:
  assumes "state c = IDLE"
  shows "(desired_state c = MOVE_UP \<longrightarrow>
            process c ns =
              Inr (c\<lparr>state := MOVE_UP,
                     state_start_time := Some (get_current_time (timer c))\<rparr>,
                   ns @ [''Raising the '' @ name c @ ''.''])) \<and>
         (desired_state c = MOVE_DOWN \<longrightarrow>
            process c ns =
              Inr (c\<lparr>state := MOVE_DOWN,
                     state_start_time := Some (get_current_time (timer c))\<rparr>,
                   ns @ [''Lowering the '' @ name c @ ''.''])) \<and>
         (desired_state c = IDLE \<longrightarrow> process c ns = Inr (c, ns))"
  using assms by (auto simp: process_defs)

theorem idle_process_witness:
  "state legs = IDLE \<and>
   process (legs\<lparr>desired_state := MOVE_UP\<rparr>) [] =
     Inr (legs\<lparr>desired_state := MOVE_UP, state := MOVE_UP,
            state_start_time := Some 0\<rparr>, [''Raising the legs.'']) \<and>
   process (legs\<lparr>desired_state := MOVE_DOWN\<rparr>) [] =
     Inr (legs\<lparr>desired_state := MOVE_DOWN, state := MOVE_DOWN,
            state_start_time := Some 0\<rparr>, [''Lowering the legs.'']) \<and>
   process legs [] = Inr (legs, [])"
  using idle_process [of "legs\<lparr>desired_state := MOVE_UP\<rparr>" "[]"]
    idle_process [of "legs\<lparr>desired_state := MOVE_DOWN\<rparr>" "[]"]
    idle_process [of legs "[]"]
  by simp

text \<open>
  C6. Right after construction, with any name, timer and durations, the state is
  \<open>IDLE\<close> and the desired state is \<open>IDLE\<close>.
\<close>

theorem init_idle:
  "state (Control_init nm tm moving cool) = IDLE \<and>
   desired_state (Control_init nm tm moving cool) = IDLE"
  by (simp add: Control_init_def)

text \<open>
  C7. In \<open>IDLE\<close> with a desired state that is none of \<open>IDLE\<close>, \<open>MOVE_UP\<close> and
  \<open>MOVE_DOWN\<close>, \<open>process\<close> does not fail: it keeps the state, appends nothing and
  sets the desired state back to \<open>IDLE\<close>.
\<close>

theorem idle_defensive:
  assumes "state c = IDLE"
    and "desired_state c \<noteq> IDLE"
    and "desired_state c \<noteq> MOVE_UP"
    and "desired_state c \<noteq> MOVE_DOWN"
  shows "process c ns = Inr (c\<lparr>desired_state := IDLE\<rparr>, ns)"
  using assms by (simp add: process_defs)

theorem idle_defensive_witness:
  "state (legs\<lparr>desired_state := COOL_DOWN\<rparr>) = IDLE \<and>
   desired_state (legs\<lparr>desired_state := COOL_DOWN\<rparr>) \<noteq> IDLE \<and>
   desired_state (legs\<lparr>desired_state := COOL_DOWN\<rparr>) \<noteq> MOVE_UP \<and>
   desired_state (legs\<lparr>desired_state := COOL_DOWN\<rparr>) \<noteq> MOVE_DOWN \<and>
   process (legs\<lparr>desired_state := COOL_DOWN\<rparr>) [''a''] = Inr (legs, [''a''])"
  using idle_defensive [of "legs\<lparr>desired_state := COOL_DOWN\<rparr>" "[''a'']"]
  by simp

text \<open>
  C8. Whenever \<open>process\<close> changes the state, the start time of the result is the
  timer's current time at that call. Hence after any sequence of calls on a newly
  constructed control, if the state is not \<open>IDLE\<close> then the start time is assigned and
  is the time at which the current state was entered: the timer's current time at the
  last call that changed the state.
\<close>

theorem state_start_time_stamped:
  "(process c ns = Inr (c', ns') \<longrightarrow> state c' \<noteq> state c \<longrightarrow>
      state_start_time c' = Some (get_current_time (timer c))) \<and>
   (run (Control_init nm tm moving cool) xs = Inr d \<longrightarrow> state d \<noteq> IDLE \<longrightarrow>
      state_start_time d \<noteq> None \<and>
      state_start_time d = entry_time None (Control_init nm tm moving cool) xs)"
proof (intro conjI impI)
  assume "process c ns = Inr (c', ns')" and "state c' \<noteq> state c"
  then show "state_start_time c' = Some (get_current_time (timer c))"
    using process_stamp [of c ns c' ns'] by simp
next
  assume r: "run (Control_init nm tm moving cool) xs = Inr d" and "state d \<noteq> IDLE"
  moreover have "start_time_set d"
    using run_total [OF start_time_set_init, of nm tm moving cool xs] r by simp
  ultimately show "state_start_time d \<noteq> None"
    by (simp add: start_time_set_def)
next
  assume "run (Control_init nm tm moving cool) xs = Inr d"
  then show "state_start_time d = entry_time None (Control_init nm tm moving cool) xs"
    using run_entry_time [of "Control_init nm tm moving cool" xs d]
    by (simp add: Control_init_def)
qed

theorem state_start_time_stamped_witness:
  "process (legs\<lparr>desired_state := MOVE_UP, timer := clock_at 7\<rparr>) [] =
     Inr (legs\<lparr>desired_state := MOVE_UP, timer := clock_at 7, state := MOVE_UP,
            state_start_time := Some 7\<rparr>, [''Raising the legs.'']) \<and>
   run (Control_init ''legs'' (clock_at 0) 5000 2000)
     [SetDesiredState MOVE_UP, TimerAdvance (clock_at 7), Process [],
      TimerAdvance (clock_at 9), Process []] =
     Inr (legs\<lparr>desired_state := MOVE_UP, timer := clock_at 9, state := MOVE_UP,
            state_start_time := Some 7\<rparr>) \<and>
   entry_time None (Control_init ''legs'' (clock_at 0) 5000 2000)
     [SetDesiredState MOVE_UP, TimerAdvance (clock_at 7), Process [],
      TimerAdvance (clock_at 9), Process []] = Some 7"
  using state_start_time_stamped [of "legs\<lparr>desired_state := MOVE_UP, timer := clock_at 7\<rparr>"
      "[]" "legs\<lparr>desired_state := MOVE_UP, timer := clock_at 7, state := MOVE_UP,
            state_start_time := Some 7\<rparr>" "[''Raising the legs.'']"
      "''legs''" "clock_at 0" 5000 2000
      "[SetDesiredState MOVE_UP, TimerAdvance (clock_at 7), Process [],
        TimerAdvance (clock_at 9), Process []]"
      "legs\<lparr>desired_state := MOVE_UP, timer := clock_at 9, state := MOVE_UP,
            state_start_time := Some 7\<rparr>"]
  by (simp add: process_defs set_desired_state_def legs_def Control_init_def)

text \<open>
  C9. \<open>process\<close> never fails on a control reached through the public interface:
  every sequence of calls on a newly constructed control runs to its end without an
  error, in the state reached the start time is assigned unless the state is \<open>IDLE\<close>,
  and one more call of \<open>process\<close>, with any list, returns. So neither the last case of
  the dispatch nor a read of an unassigned start time is ever reached.
\<close>

theorem process_never_fails:
  "\<exists>c. run (Control_init nm tm moving cool) xs = Inr c \<and>
     (state c \<noteq> IDLE \<longrightarrow> state_start_time c \<noteq> None) \<and>
     (\<forall>ns. \<exists>r. process c ns = Inr r)"
proof -
  obtain c where "run (Control_init nm tm moving cool) xs = Inr c" and "start_time_set c"
    using run_total [OF start_time_set_init] by blast
  then show ?thesis
    using process_total [of c] by (auto simp: start_time_set_def)
qed

theorem process_never_fails_witness:
  "\<exists>c. run (Control_init ''legs'' (clock_at 0) 5000 2000)
       [SetDesiredState MOVE_UP, Process [], TimerAdvance (clock_at 5001), Process []] =
         Inr c \<and>
     state c = COOL_DOWN \<and> state_start_time c = Some 5001 \<and>
     (\<forall>ns. \<exists>r. process c ns = Inr r)"
  using process_never_fails [of "''legs''" "clock_at 0" 5000 2000
      "[SetDesiredState MOVE_UP, Process [], TimerAdvance (clock_at 5001), Process []]"]
  by (auto simp: process_defs set_desired_state_def Control_init_def)

text \<open>
  C10. On a control reached by any sequence of calls from construction, one call of
  \<open>process\<close> appends at most one notification to the list it is given: the result
  is that list with nothing or one string added at its end, and both the resulting
  control and what is added are the same for every list, so the entries already in it
  are neither consulted, removed nor changed.
\<close>

theorem process_appends_at_most_one:
  assumes "run (Control_init nm tm moving cool) xs = Inr c"
  shows "\<exists>c' extra. length extra \<le> 1 \<and>
    (\<forall>ns. process c ns = Inr (c', ns @ extra))"
proof -
  have "start_time_set c"
    using run_total [OF start_time_set_init, of nm tm moving cool xs] assms by simp
  then show ?thesis by (rule process_appends)
qed

theorem process_appends_at_most_one_witness:
  "run (Control_init ''legs'' (clock_at 0) 5000 2000)
     [SetDesiredState MOVE_DOWN, Process [], SetDesiredState IDLE] =
     Inr (legs\<lparr>desired_state := IDLE, state := MOVE_DOWN, state_start_time := Some 0\<rparr>) \<and>
   (\<exists>c' extra. length extra \<le> 1 \<and>
      (\<forall>ns. process (legs\<lparr>desired_state := IDLE, state := MOVE_DOWN,
          state_start_time := Some 0\<rparr>) ns = Inr (c', ns @ extra)))"
proof -
  have r: "run (Control_init ''legs'' (clock_at 0) 5000 2000)
     [SetDesiredState MOVE_DOWN, Process [], SetDesiredState IDLE] =
     Inr (legs\<lparr>desired_state := IDLE, state := MOVE_DOWN, state_start_time := Some 0\<rparr>)"
    by (simp add: process_defs set_desired_state_def legs_def Control_init_def)
  from r process_appends_at_most_one [OF r] show ?thesis by blast
qed

end
